theory Spec2Isabelle
  imports Complex_Main
begin

section \<open>Bounding-box overlay of ObjectDetector (cover scaling and clamping)\<close>

text \<open>
  The overlay callback of \<^verbatim>\<open>predictions.map\<close> in ObjectDetector.jsx. JavaScript numbers
  are modelled as real numbers (exact arithmetic); a property that is \<^verbatim>\<open>undefined\<close> on a
  DOM element is \<open>None\<close>. A video element has \<^verbatim>\<open>videoWidth\<close>/\<^verbatim>\<open>videoHeight\<close> and no
  \<^verbatim>\<open>naturalWidth\<close>; an image element the other way round.
\<close>

datatype mode = Live | Upload

record container =
  clientWidth :: real
  clientHeight :: real

record element =
  videoWidth :: "real option"
  videoHeight :: "real option"
  naturalWidth :: "real option"
  naturalHeight :: "real option"
  parentElement :: "container option"

record box =
  bx :: real
  by_y :: real
  bw :: real
  bh :: real

record detection =
  cls :: string
  score :: real
  bbox :: box

record style =
  left :: real
  top_px :: real
  width :: real
  height :: real

record clamped = style +
  maxWidth :: real
  maxHeight :: real

text \<open>JavaScript truthiness of a possibly undefined number, and \<^verbatim>\<open>a || b\<close>.\<close>

definition truthy :: "real option \<Rightarrow> bool" where
  "truthy a = (case a of None \<Rightarrow> False | Some v \<Rightarrow> v \<noteq> 0)"

definition js_or :: "real option \<Rightarrow> real option \<Rightarrow> real option" where
  "js_or a b = (if truthy a then a else b)"

definition MARGIN :: real where
  "MARGIN = 10"

text \<open>\<^verbatim>\<open>const scale = Math.max(containerWidth / videoWidth, containerHeight / videoHeight)\<close>\<close>

definition scale :: "real \<Rightarrow> real \<Rightarrow> real \<Rightarrow> real \<Rightarrow> real" where
  "scale containerWidth containerHeight vW vH =
     max (containerWidth / vW) (containerHeight / vH)"

definition offsetX :: "real \<Rightarrow> real \<Rightarrow> real \<Rightarrow> real \<Rightarrow> real" where
  "offsetX containerWidth containerHeight vW vH =
     (let displayedWidth = vW * scale containerWidth containerHeight vW vH
      in (containerWidth - displayedWidth) / 2)"

definition offsetY :: "real \<Rightarrow> real \<Rightarrow> real \<Rightarrow> real \<Rightarrow> real" where
  "offsetY containerWidth containerHeight vW vH =
     (let displayedHeight = vH * scale containerWidth containerHeight vW vH
      in (containerHeight - displayedHeight) / 2)"

definition rawStyle :: "real \<Rightarrow> real \<Rightarrow> real \<Rightarrow> real \<Rightarrow> box \<Rightarrow> style" where
  "rawStyle containerWidth containerHeight vW vH b =
     (let s = scale containerWidth containerHeight vW vH in
      \<lparr> left = bx b * s + offsetX containerWidth containerHeight vW vH,
        top_px = by_y b * s + offsetY containerWidth containerHeight vW vH,
        width = bw b * s,
        height = bh b * s \<rparr>)"

text \<open>
  \<^verbatim>\<open>left = Math.max(MARGIN, Math.min(rawStyle.left, containerWidth - rawStyle.width - MARGIN))\<close>,
  the same for \<^verbatim>\<open>top\<close>; \<^verbatim>\<open>clampedStyle\<close> spreads \<^verbatim>\<open>rawStyle\<close> (so width and height stay raw)
  and adds \<^verbatim>\<open>maxWidth\<close>, \<^verbatim>\<open>maxHeight\<close>. The differences are exact here and rounded to
  doubles in the code, so an identity such as \<open>left + maxWidth = containerWidth - MARGIN\<close>
  belongs to this model only; the properties below are those that do not rest on it.
\<close>

definition clampedStyle :: "real \<Rightarrow> real \<Rightarrow> style \<Rightarrow> clamped" where
  "clampedStyle containerWidth containerHeight raw =
     (let l = max MARGIN (min (left raw) (containerWidth - width raw - MARGIN));
          t = max MARGIN (min (top_px raw) (containerHeight - height raw - MARGIN))
      in \<lparr> left = l, top_px = t, width = width raw, height = height raw,
           maxWidth = containerWidth - l - MARGIN,
           maxHeight = containerHeight - t - MARGIN \<rparr>)"

definition isNearTop :: "clamped \<Rightarrow> bool" where
  "isNearTop c = (top_px c < 40)"

text \<open>
  The callback itself: \<open>None\<close> is the \<^verbatim>\<open>return null\<close> of the two guards (nothing is rendered
  for this detection in this render). \<open>webcamVideo\<close> is \<^verbatim>\<open>webcamRef.current?.video\<close>,
  \<open>media\<close> is \<^verbatim>\<open>mediaRef.current\<close>.
\<close>

definition renderBox ::
  "mode \<Rightarrow> element option \<Rightarrow> element option \<Rightarrow> detection \<Rightarrow> (style \<times> clamped) option" where
  "renderBox m webcamVideo media pred =
     (case (if m = Live then webcamVideo else media) of
        None \<Rightarrow> None
      | Some el \<Rightarrow>
          let vW = js_or (videoWidth el) (naturalWidth el);
              vH = js_or (videoHeight el) (naturalHeight el)
          in if \<not> truthy vW \<or> \<not> truthy vH \<or> parentElement el = None then None
             else
               let cW = clientWidth (the (parentElement el));
                   cH = clientHeight (the (parentElement el));
                   raw = rawStyle cW cH (the vW) (the vH) (bbox pred)
               in Some (raw, clampedStyle cW cH raw))"

definition overlay ::
  "mode \<Rightarrow> element option \<Rightarrow> element option \<Rightarrow> detection list \<Rightarrow> (style \<times> clamped) option list" where
  "overlay m webcamVideo media predictions = map (renderBox m webcamVideo media) predictions"

text \<open>The cover-fit formula as the specification words it (section 4.2, steps 1 to 4).\<close>

definition spec_scale :: "real \<Rightarrow> real \<Rightarrow> real \<Rightarrow> real \<Rightarrow> real" where
  "spec_scale containerWidth containerHeight sourceWidth sourceHeight =
     max (containerWidth / sourceWidth) (containerHeight / sourceHeight)"

definition spec_raw_box :: "real \<Rightarrow> real \<Rightarrow> real \<Rightarrow> real \<Rightarrow> box \<Rightarrow> style" where
  "spec_raw_box containerWidth containerHeight sourceWidth sourceHeight b =
     \<lparr> left = bx b * spec_scale containerWidth containerHeight sourceWidth sourceHeight
               + (containerWidth
                  - sourceWidth * spec_scale containerWidth containerHeight sourceWidth sourceHeight) / 2,
       top_px = by_y b * spec_scale containerWidth containerHeight sourceWidth sourceHeight
               + (containerHeight
                  - sourceHeight * spec_scale containerWidth containerHeight sourceWidth sourceHeight) / 2,
       width = bw b * spec_scale containerWidth containerHeight sourceWidth sourceHeight,
       height = bh b * spec_scale containerWidth containerHeight sourceWidth sourceHeight \<rparr>"

text \<open>An uploaded or live video element of the given size inside a container.\<close>

definition videoElement :: "real \<Rightarrow> real \<Rightarrow> container option \<Rightarrow> element" where
  "videoElement w h p =
     \<lparr> videoWidth = Some w, videoHeight = Some h, naturalWidth = None, naturalHeight = None,
       parentElement = p \<rparr>"

section \<open>The detection loop of ObjectDetector\<close>

text \<open>
  React state of ObjectDetector that \<^verbatim>\<open>detect\<close> reads. \<^verbatim>\<open>detect\<close> is built by
  \<^verbatim>\<open>useCallback\<close> with dependencies \<^verbatim>\<open>[model, mode, mediaFile, isPaused, settings]\<close>: every
  \<^verbatim>\<open>detect\<close> function is a closure over the values of the render that created it, and it
  names itself when it re-arms. A closure is therefore identified with the record of the values
  it captured.
\<close>

datatype media_type = Image | Video

record mediaFile =
  ftype :: media_type
  url :: string

record settings =
  minConfidence :: real
  maxObjects :: nat
  iouThreshold :: real

record render =
  model :: bool \<comment> \<open>the model is loaded (not \<^verbatim>\<open>null\<close>)\<close>
  mode :: mode
  mediaFile :: "mediaFile option"
  isPaused :: bool
  settings :: settings

text \<open>What one call of \<^verbatim>\<open>detect\<close> observes of the DOM through the two element refs.\<close>

record env =
  webcamReady :: bool \<comment> \<open>\<^verbatim>\<open>webcamRef.current?.video?.readyState === 4\<close>\<close>
  mediaEl :: bool \<comment> \<open>\<^verbatim>\<open>mediaRef.current\<close> is not null\<close>
  mediaPaused :: bool \<comment> \<open>\<^verbatim>\<open>mediaRef.current.paused\<close>\<close>
  mediaReadyState :: nat \<comment> \<open>\<^verbatim>\<open>mediaRef.current.readyState\<close>\<close>

datatype frame_source = WebcamVideo | MediaElement

text \<open>
  The scheduler state: the values of the latest render, the React state \<^verbatim>\<open>predictions\<close> and
  \<^verbatim>\<open>fps\<close>, the refs \<^verbatim>\<open>requestRef\<close> and \<^verbatim>\<open>fpsRef\<close>, and the browser's queues: animation-frame
  callbacks by handle, pending \<^verbatim>\<open>setTimeout(detect, 500)\<close> timers in order, and the \<^verbatim>\<open>detect\<close>
  invocations suspended at \<^verbatim>\<open>await model.detect(...)\<close>, by call number. \<open>calls\<close> records the
  time of every \<^verbatim>\<open>model.detect\<close> call (newest first), \<open>console\<close> what \<^verbatim>\<open>console.error\<close> printed.
\<close>

record sched =
  cur :: render
  predictions :: "detection list"
  fps :: nat
  requestRef :: "nat option"
  lastFrameTime :: real
  lastFpsTime :: real
  frameCount :: nat
  nextHandle :: nat
  frames :: "(nat \<times> render) list"
  timers :: "render list"
  awaiting :: "(nat \<times> render) list"
  calls :: "real list"
  console :: "string list"

definition mediaType :: "render \<Rightarrow> media_type option" where
  "mediaType c = map_option ftype (mediaFile c)"

text \<open>Lines 58 to 68: the element to run the model on, if any.\<close>

definition videoEl :: "render \<Rightarrow> env \<Rightarrow> frame_source option" where
  "videoEl c e =
     (if mode c = Live \<and> webcamReady e then Some WebcamVideo
      else if mode c = Upload \<and> mediaEl e \<and> mediaType c = Some Video \<and> \<not> mediaPaused e
           then (if 2 \<le> mediaReadyState e then Some MediaElement else None)
      else if mode c = Upload \<and> mediaEl e \<and> mediaType c = Some Image then Some MediaElement
      else None)"

text \<open>\<^verbatim>\<open>requestRef.current = requestAnimationFrame(detect)\<close> for the closure \<open>c\<close>.\<close>

definition requestAnimationFrame :: "render \<Rightarrow> sched \<Rightarrow> sched" where
  "requestAnimationFrame c st =
     st\<lparr> requestRef := Some (nextHandle st),
         frames := frames st @ [(nextHandle st, c)],
         nextHandle := nextHandle st + 1 \<rparr>"

text \<open>\<^verbatim>\<open>cancelAnimationFrame(requestRef.current)\<close>: a handle that already ran is ignored.\<close>

definition cancelAnimationFrame :: "sched \<Rightarrow> sched" where
  "cancelAnimationFrame st =
     (case requestRef st of
        None \<Rightarrow> st
      | Some h \<Rightarrow> st\<lparr> frames := filter (\<lambda>p. fst p \<noteq> h) (frames st) \<rparr>)"

text \<open>Lines 71 to 77: the frame counter and its window.\<close>

definition countFrame :: "real \<Rightarrow> sched \<Rightarrow> sched" where
  "countFrame now st =
     (let n = frameCount st + 1 in
      if 1000 \<le> now - lastFpsTime st
      then st\<lparr> fps := n, frameCount := 0, lastFpsTime := now \<rparr>
      else st\<lparr> frameCount := n \<rparr>)"

text \<open>Line 80 up to the \<^verbatim>\<open>await\<close>: the call is made and the invocation is suspended.\<close>

definition callModel :: "render \<Rightarrow> real \<Rightarrow> sched \<Rightarrow> sched" where
  "callModel c now st =
     st\<lparr> awaiting := awaiting st @ [(length (calls st), c)], calls := now # calls st \<rparr>"

text \<open>Lines 87 to 89: the re-arm at the end of \<^verbatim>\<open>detect\<close>.\<close>

definition rearm :: "render \<Rightarrow> sched \<Rightarrow> sched" where
  "rearm c st =
     (if mode c = Live \<or> (mode c = Upload \<and> mediaType c = Some Video)
      then requestAnimationFrame c st else st)"

text \<open>
  \<^verbatim>\<open>detect\<close> from its entry to its first suspension or return, at \<^verbatim>\<open>performance.now() = now\<close>.
\<close>

definition detect :: "render \<Rightarrow> real \<Rightarrow> env \<Rightarrow> sched \<Rightarrow> sched" where
  "detect c now e st =
     (if isPaused c \<or> \<not> model c then st
      else if now - lastFrameTime st < 41 then requestAnimationFrame c st
      else
        let st1 = st\<lparr> lastFrameTime := now \<rparr> in
        case videoEl c e of
          None \<Rightarrow> rearm c st1
        | Some v \<Rightarrow> callModel c now (countFrame now st1))"

text \<open>
  The rest of \<^verbatim>\<open>detect\<close> after the \<^verbatim>\<open>await\<close> of call \<open>k\<close>: \<open>Inr results\<close> when the promise
  is fulfilled, \<open>Inl err\<close> when it is rejected (the \<^verbatim>\<open>catch\<close> branch).
\<close>

definition resume :: "nat \<Rightarrow> string + detection list \<Rightarrow> sched \<Rightarrow> sched" where
  "resume k r st =
     (case map_of (awaiting st) k of
        None \<Rightarrow> st
      | Some c \<Rightarrow>
          let st1 = st\<lparr> awaiting := filter (\<lambda>p. fst p \<noteq> k) (awaiting st) \<rparr>;
              st2 = (case r of
                       Inr results \<Rightarrow> st1\<lparr> predictions := results \<rparr>
                     | Inl err \<Rightarrow> st1\<lparr> console := console st1 @ [err] \<rparr>)
          in rearm c st2)"

text \<open>
  Lines 93 to 101: the effect that triggers detection, and a re-render whose dependencies
  \<^verbatim>\<open>[detect, mode, mediaFile, isPaused, model]\<close> changed: the cleanup of the previous effect
  runs, then the effect with the new \<^verbatim>\<open>detect\<close>.
\<close>

definition effect :: "sched \<Rightarrow> sched" where
  "effect st =
     (let c = cur st in
      if mode c = Upload \<and> mediaType c = Some Image \<and> model c
      then st\<lparr> timers := timers st @ [c] \<rparr>
      else if \<not> isPaused c then requestAnimationFrame c st
      else st)"

definition rerender :: "render \<Rightarrow> sched \<Rightarrow> sched" where
  "rerender c st = effect (cancelAnimationFrame (st\<lparr> cur := c \<rparr>))"

text \<open>
  What can happen to a mounted ObjectDetector. A new \<^verbatim>\<open>settings\<close> or \<^verbatim>\<open>mediaFile\<close> object
  always differs from the old one for React; \<^verbatim>\<open>setIsPaused(false)\<close> on a running detector and a
  second \<^verbatim>\<open>setModel\<close> change nothing.
\<close>

datatype event =
    ModelLoaded
  | Frame nat real env
  | Timer real env
  | Settled nat "string + detection list"
  | ToggleMode
  | TogglePause
  | OnPlay
  | Drop mediaFile
  | ClearMedia
  | SetSettings settings

fun step :: "event \<Rightarrow> sched \<Rightarrow> sched" where
  "step ModelLoaded st =
     (if model (cur st) then st else rerender ((cur st)\<lparr> model := True \<rparr>) st)"
| "step (Frame h now e) st =
     (case map_of (frames st) h of
        None \<Rightarrow> st
      | Some c \<Rightarrow> detect c now e (st\<lparr> frames := filter (\<lambda>p. fst p \<noteq> h) (frames st) \<rparr>))"
| "step (Timer now e) st =
     (case timers st of
        [] \<Rightarrow> st
      | c # cs \<Rightarrow> detect c now e (st\<lparr> timers := cs \<rparr>))"
| "step (Settled k r) st = resume k r st"
| "step ToggleMode st =
     rerender ((cur st)\<lparr> mode := (if mode (cur st) = Live then Upload else Live) \<rparr>)
       (st\<lparr> predictions := [] \<rparr>)"
| "step TogglePause st = rerender ((cur st)\<lparr> isPaused := \<not> isPaused (cur st) \<rparr>) st"
| "step OnPlay st =
     (if isPaused (cur st) then rerender ((cur st)\<lparr> isPaused := False \<rparr>) st else st)"
| "step (Drop f) st =
     rerender ((cur st)\<lparr> mediaFile := Some f, mode := Upload \<rparr>) (st\<lparr> predictions := [] \<rparr>)"
| "step ClearMedia st =
     (if mediaFile (cur st) = None \<and> mode (cur st) = Live then st\<lparr> predictions := [] \<rparr>
      else rerender ((cur st)\<lparr> mediaFile := None, mode := Live \<rparr>) (st\<lparr> predictions := [] \<rparr>))"
| "step (SetSettings s) st = rerender ((cur st)\<lparr> settings := s \<rparr>) st"

fun run :: "event list \<Rightarrow> sched \<Rightarrow> sched" where
  "run [] st = st"
| "run (ev # evs) st = run evs (step ev st)"

text \<open>The state after the first render and its effect (lines 13 to 32 and 93 to 101).\<close>

definition init :: sched where
  "init = effect
     \<lparr> cur = \<lparr> model = False, mode = Live, mediaFile = None, isPaused = False,
               settings = \<lparr> minConfidence = 0.5, maxObjects = 10, iouThreshold = 0.3 \<rparr> \<rparr>,
       predictions = [], fps = 0, requestRef = None,
       lastFrameTime = 0, lastFpsTime = 0, frameCount = 0,
       nextHandle = 1, frames = [], timers = [], awaiting = [], calls = [], console = [] \<rparr>"

text \<open>Any two calls of the list (newest first) are at least \<open>g\<close> apart.\<close>

fun spaced :: "real \<Rightarrow> real list \<Rightarrow> bool" where
  "spaced g [] = True"
| "spaced g (t # ts) = ((\<forall>u \<in> set ts. g \<le> t - u) \<and> spaced g ts)"

text \<open>A webcam that is ready, and nothing uploaded.\<close>

definition camera :: env where
  "camera = \<lparr> webcamReady = True, mediaEl = False, mediaPaused = False, mediaReadyState = 0 \<rparr>"

definition person :: detection where
  "person = \<lparr> cls = ''person'', score = 0.9,
              bbox = \<lparr> bx = 100, by_y = 100, bw = 50, bh = 50 \<rparr> \<rparr>"

section \<open>The exemplar store of TransferLearner\<close>

text \<open>
  TransferLearner keeps its exemplars in the classifier object of the external package
  \<^verbatim>\<open>@tensorflow-models/knn-classifier\<close>, which is not part of the repository. Only the four
  methods the component calls are modelled.
\<close>

type_synonym vector = "real list"

text \<open>
  Modelled from the spec: the external classifier object, as the ExemplarStore of section 4.3
  (labelled feature vectors per class, appended by \<^verbatim>\<open>addExample\<close>, emptied as a whole by the
  clear operation). \<^verbatim>\<open>getNumClasses\<close> counts the classes that hold an exemplar.
\<close>

type_synonym knn = "(nat \<times> vector) list"

definition knn_addExample :: "vector \<Rightarrow> nat \<Rightarrow> knn \<Rightarrow> knn" where
  "knn_addExample activation classId k = k @ [(classId, activation)]"

definition clearAllClasses :: "knn \<Rightarrow> knn" where
  "clearAllClasses k = []"

definition getNumClasses :: "knn \<Rightarrow> nat" where
  "getNumClasses k = length (remdups (map fst k))"

definition exemplars :: "knn \<Rightarrow> nat \<Rightarrow> vector list" where
  "exemplars k classId = map snd (filter (\<lambda>p. fst p = classId) k)"

record prediction =
  label :: nat
  classIndex :: nat
  confidences :: "(nat \<times> real) list"

record classInfo =
  cid :: nat
  name :: string
  count :: nat
  color :: string

record learner =
  net :: bool \<comment> \<open>MobileNet is loaded\<close>
  classifier :: "knn option" \<comment> \<open>\<open>None\<close> until \<^verbatim>\<open>knnClassifier.create()\<close> has run\<close>
  classes :: "classInfo list"
  result :: "prediction option" \<comment> \<open>\<open>None\<close> is \<^verbatim>\<open>null\<close>: no prediction\<close>
  isTraining :: bool

text \<open>
  \<^verbatim>\<open>addExample(classId)\<close>; \<open>ready\<close> is \<^verbatim>\<open>webcamRef.current?.video?.readyState === 4\<close> and
  \<open>activation\<close> what \<^verbatim>\<open>net.infer(img, true)\<close> returns for the current frame.
\<close>

definition addExample :: "nat \<Rightarrow> bool \<Rightarrow> vector \<Rightarrow> learner \<Rightarrow> learner" where
  "addExample classId ready activation st =
     (case classifier st of
        None \<Rightarrow> st
      | Some k \<Rightarrow>
          if net st \<and> ready
          then st\<lparr> classifier := Some (knn_addExample activation classId k),
                   classes := map (\<lambda>c. if cid c = classId then c\<lparr> count := count c + 1 \<rparr> else c)
                                  (classes st),
                   isTraining := True \<rparr>
          else st)"

text \<open>
  One call of \<^verbatim>\<open>predict\<close>. \<open>predictClass\<close> stands for the external
  \<^verbatim>\<open>classifier.predictClass\<close>, which may reject (\<open>Inl\<close>); \<open>infer\<close> for the two calls before
  the \<^verbatim>\<open>try\<close> that build the activation and may throw. The result \<open>Inl\<close> is a \<^verbatim>\<open>predict\<close>
  that throws, \<open>Inr\<close> the state it leaves.
\<close>

definition predict ::
  "(knn \<Rightarrow> vector \<Rightarrow> string + prediction) \<Rightarrow> bool \<Rightarrow> string + vector \<Rightarrow> learner
     \<Rightarrow> string + learner" where
  "predict predictClass ready infer st =
     (case classifier st of
        None \<Rightarrow> Inr st
      | Some k \<Rightarrow>
          if net st \<and> ready \<and> 0 < getNumClasses k
          then (case infer of
                  Inl err \<Rightarrow> Inl err
                | Inr activation \<Rightarrow>
                    (case predictClass k activation of
                       Inr r \<Rightarrow> Inr (st\<lparr> result := Some r \<rparr>)
                     | Inl err \<Rightarrow> Inr st))
          else Inr st)"

definition clearAll :: "learner \<Rightarrow> learner" where
  "clearAll st =
     (case classifier st of
        None \<Rightarrow> st
      | Some k \<Rightarrow>
          st\<lparr> classifier := Some (clearAllClasses k),
              classes := map (\<lambda>c. c\<lparr> count := 0 \<rparr>) (classes st),
              result := None \<rparr>)"

text \<open>\<^verbatim>\<open>addClass\<close>; the colour is picked at random from five.\<close>

definition addClass :: "string \<Rightarrow> learner \<Rightarrow> learner" where
  "addClass randomColor st =
     st\<lparr> classes := classes st @
           [\<lparr> cid = length (classes st),
              name = ''Class '' @ [char_of (65 + length (classes st))],
              count = 0, color = randomColor \<rparr>] \<rparr>"

datatype learner_event =
    Loaded
  | AddExample nat bool vector
  | Predict bool "string + vector"
  | ClearAll
  | AddClass string

text \<open>A \<^verbatim>\<open>predict\<close> that throws leaves the state as it was.\<close>

fun learner_step ::
  "(knn \<Rightarrow> vector \<Rightarrow> string + prediction) \<Rightarrow> learner_event \<Rightarrow> learner \<Rightarrow> learner" where
  "learner_step pc Loaded st = st\<lparr> net := True, classifier := Some [] \<rparr>"
| "learner_step pc (AddExample classId ready activation) st = addExample classId ready activation st"
| "learner_step pc (Predict ready infer) st =
     (case predict pc ready infer st of Inl err \<Rightarrow> st | Inr st' \<Rightarrow> st')"
| "learner_step pc ClearAll st = clearAll st"
| "learner_step pc (AddClass col) st = addClass col st"

fun learner_run ::
  "(knn \<Rightarrow> vector \<Rightarrow> string + prediction) \<Rightarrow> learner_event list \<Rightarrow> learner \<Rightarrow> learner" where
  "learner_run pc [] st = st"
| "learner_run pc (ev # evs) st = learner_run pc evs (learner_step pc ev st)"

definition learner_init :: learner where
  "learner_init =
     \<lparr> net = False, classifier = None,
       classes = [\<lparr> cid = 0, name = ''Class A (e.g. Thumbs Up)'', count = 0, color = ''bg-emerald-500'' \<rparr>,
                  \<lparr> cid = 1, name = ''Class B (e.g. Open Palm)'', count = 0, color = ''bg-indigo-500'' \<rparr>,
                  \<lparr> cid = 2, name = ''Background (Nothing)'', count = 0, color = ''bg-gray-500'' \<rparr>],
       result = None, isTraining = False \<rparr>"

text \<open>No exemplar in any class: the classifier does not exist yet or holds nothing.\<close>

definition store_empty :: "learner \<Rightarrow> bool" where
  "store_empty st = (case classifier st of None \<Rightarrow> True | Some k \<Rightarrow> k = [])"

text \<open>A classifier that answers class 0 whatever it is asked.\<close>

definition always0 :: "knn \<Rightarrow> vector \<Rightarrow> string + prediction" where
  "always0 k v = Inr \<lparr> label = 0, classIndex = 0, confidences = [(0, 1)] \<rparr>"

section \<open>Auxiliary definitions used in the statements and proofs\<close>

text \<open>A detection that covers the whole 640 by 480 source.\<close>

definition wide :: detection where
  "wide = \<lparr> cls = ''bus'', score = 0.8, bbox = \<lparr> bx = 0, by_y = 0, bw = 640, bh = 480 \<rparr> \<rparr>"

text \<open>A webcam video of 640 by 480 shown in a container of the given size.\<close>

definition webcam640 :: "real \<Rightarrow> real \<Rightarrow> element" where
  "webcam640 cW cH = videoElement 640 480 (Some \<lparr> clientWidth = cW, clientHeight = cH \<rparr>)"

text \<open>
  Before the classifier exists nothing has been predicted and nothing counted.
\<close>

definition learner_inv :: "learner \<Rightarrow> bool" where
  "learner_inv st =
     (classifier st = None \<longrightarrow> result st = None \<and> (\<forall>c \<in> set (classes st). count c = 0))"

definition training :: "learner_event list" where
  "training =
     [Loaded, AddExample 0 True [1, 0], AddExample 1 True [0, 1], Predict True (Inr [1, 0])]"

text \<open>
  The invariant behind the frame cap: no call is later than \<^verbatim>\<open>fpsRef.current.lastFrameTime\<close>,
  and the calls made so far are at least 41 apart.
\<close>

definition cap_inv :: "sched \<Rightarrow> bool" where
  "cap_inv st = ((\<forall>u \<in> set (calls st). u \<le> lastFrameTime st) \<and> spaced 41 (calls st))"

text \<open>The settings after the confidence slider has been moved to 0.6.\<close>

definition slider :: settings where
  "slider = \<lparr> minConfidence = 0.6, maxObjects = 10, iouThreshold = 0.3 \<rparr>"

text \<open>
  Handles of queued frame callbacks are older than the next handle, and an invocation that is
  suspended at the \<^verbatim>\<open>await\<close> belongs to a closure that passed the guard of line 47.
\<close>

definition loop_inv :: "sched \<Rightarrow> bool" where
  "loop_inv st =
     ((\<forall>p \<in> set (frames st). fst p < nextHandle st)
      \<and> (\<forall>p \<in> set (awaiting st). \<not> isPaused (snd p) \<and> model (snd p)))"

text \<open>The events of the loop itself, as opposed to those that re-render the component.\<close>

fun loop_event :: "event \<Rightarrow> bool" where
  "loop_event (Frame h now e) = True"
| "loop_event (Timer now e) = True"
| "loop_event (Settled k r) = True"
| "loop_event ev = False"

text \<open>
  The number of places from which \<^verbatim>\<open>detect\<close> can still run: queued frame callbacks, pending
  timers and suspended invocations.
\<close>

definition strands :: "sched \<Rightarrow> nat" where
  "strands st = length (frames st) + length (timers st) + length (awaiting st)"

text \<open>
  Some runs of a live detector: the model is loaded, the frame callback with handle 2 runs
  five seconds after the page was opened (\<^verbatim>\<open>performance.now()\<close> is 5000) with the webcam
  ready and calls the model (call 0), and so on.
\<close>

definition first_call :: "event list" where
  "first_call = [ModelLoaded, Frame 2 5000 camera]"

definition two_calls :: "event list" where
  "two_calls = first_call @ [Settled 0 (Inr [person]), Frame 3 5050 camera]"

definition close_calls :: "event list" where
  "close_calls = first_call @ [Settled 0 (Inr []), Frame 3 (50412 / 10) camera]"

definition settings_in_flight :: "event list" where
  "settings_in_flight = first_call @ [SetSettings slider, Frame 3 5050 camera]"

definition switch_in_flight :: "event list" where
  "switch_in_flight = first_call @ [ToggleMode, Settled 0 (Inr [person])]"

definition pause_in_flight :: "event list" where
  "pause_in_flight = first_call @ [TogglePause, Settled 0 (Inr [person]), Frame 3 5050 camera]"

definition failing_calls :: "event list" where
  "failing_calls =
     first_call @ [Settled 0 (Inl ''boom''), Frame 3 5100 camera, Settled 1 (Inl ''boom''),
                   Frame 4 6000 camera]"

definition failure_after_success :: "event list" where
  "failure_after_success = two_calls @ [Settled 1 (Inl ''boom''), Frame 4 5100 camera]"

text \<open>The three handlers that change the source: mode toggle, file drop, clear.\<close>

fun source_switch :: "event \<Rightarrow> bool" where
  "source_switch ToggleMode = True"
| "source_switch (Drop f) = True"
| "source_switch ClearMedia = True"
| "source_switch ev = False"

section \<open>Properties of the bounding-box overlay\<close>

lemma spec_raw_box_eq: "rawStyle cW cH vW vH b = spec_raw_box cW cH vW vH b"
  by (simp add: rawStyle_def spec_raw_box_def spec_scale_def scale_def offsetX_def offsetY_def Let_def)

lemma renderBox_Some:
  assumes "(if m = Live then webcamVideo else media) = Some el"
    and "js_or (videoWidth el) (naturalWidth el) = Some vW" and "vW \<noteq> 0"
    and "js_or (videoHeight el) (naturalHeight el) = Some vH" and "vH \<noteq> 0"
    and "parentElement el = Some p"
  shows "renderBox m webcamVideo media pred =
           Some (rawStyle (clientWidth p) (clientHeight p) vW vH (bbox pred),
                 clampedStyle (clientWidth p) (clientHeight p)
                   (rawStyle (clientWidth p) (clientHeight p) vW vH (bbox pred)))"
  using assms by (simp add: renderBox_def truthy_def Let_def)

lemma renderBox_SomeD:
  assumes "renderBox m webcamVideo media pred = Some (raw, c)"
  obtains el p vW vH where "(if m = Live then webcamVideo else media) = Some el"
    and "parentElement el = Some p"
    and "js_or (videoWidth el) (naturalWidth el) = Some vW" and "vW \<noteq> 0"
    and "js_or (videoHeight el) (naturalHeight el) = Some vH" and "vH \<noteq> 0"
    and "raw = rawStyle (clientWidth p) (clientHeight p) vW vH (bbox pred)"
    and "c = clampedStyle (clientWidth p) (clientHeight p) raw"
proof -
  from assms obtain el where el: "(if m = Live then webcamVideo else media) = Some el"
    by (auto simp add: renderBox_def split: option.splits)
  let ?vW = "js_or (videoWidth el) (naturalWidth el)"
  let ?vH = "js_or (videoHeight el) (naturalHeight el)"
  from assms el have g: "truthy ?vW" "truthy ?vH" "parentElement el \<noteq> None"
    by (auto simp add: renderBox_def Let_def split: if_splits)
  then obtain vW vH p where v: "?vW = Some vW" "vW \<noteq> 0" "?vH = Some vH" "vH \<noteq> 0"
      "parentElement el = Some p"
    by (auto simp add: truthy_def split: option.splits)
  from assms el g v have "raw = rawStyle (clientWidth p) (clientHeight p) vW vH (bbox pred)"
      "c = clampedStyle (clientWidth p) (clientHeight p) raw"
    by (auto simp add: renderBox_def Let_def)
  with el v that show thesis by blast
qed



text \<open>
  C4. Whenever the source dimensions are present and nonzero (and the element has a container),
  the raw box the overlay computes is the cover-fit box of the specification:
  \<open>scale = max (containerWidth / sourceWidth) (containerHeight / sourceHeight)\<close>, offsets that
  centre the scaled source, \<open>left = x * scale + offsetX\<close>, \<open>top = y * scale + offsetY\<close>,
  \<open>width = w * scale\<close>, \<open>height = h * scale\<close>. For a 640 by 480 source in an 800 by 450
  container the scale is 1.25, and the box (100, 100, 50, 50) has raw left \<open>125 + offsetX\<close>.
  (All numbers of this example are exact in binary floating point as well.)
\<close>

theorem cover_fit_formula:
  assumes "(if m = Live then webcamVideo else media) = Some el"
    and "js_or (videoWidth el) (naturalWidth el) = Some sourceWidth" and "sourceWidth \<noteq> 0"
    and "js_or (videoHeight el) (naturalHeight el) = Some sourceHeight" and "sourceHeight \<noteq> 0"
    and "parentElement el = Some p"
  shows "map_option fst (renderBox m webcamVideo media pred) =
           Some (spec_raw_box (clientWidth p) (clientHeight p) sourceWidth sourceHeight (bbox pred))
         \<and> scale 800 450 640 480 = 5 / 4
         \<and> left (rawStyle 800 450 640 480 \<lparr> bx = 100, by_y = 100, bw = 50, bh = 50 \<rparr>)
             = 125 + offsetX 800 450 640 480"
proof -
  have "map_option fst (renderBox m webcamVideo media pred) =
          Some (rawStyle (clientWidth p) (clientHeight p) sourceWidth sourceHeight (bbox pred))"
    using renderBox_Some [OF assms] by simp
  moreover have "scale 800 450 640 480 = 5 / 4"
    by (simp add: scale_def)
  moreover have "left (rawStyle 800 450 640 480 \<lparr> bx = 100, by_y = 100, bw = 50, bh = 50 \<rparr>)
             = 125 + offsetX 800 450 640 480"
    by (simp add: rawStyle_def scale_def Let_def)
  ultimately show ?thesis by (simp add: spec_raw_box_eq)
qed

text \<open>
  The example of C4 evaluated: the offsets are 0 and -75, so the raw box is at (125, 50) with
  sides 62.5.
\<close>

theorem cover_fit_formula_witness:
  "map_option fst (renderBox Live (Some (webcam640 800 450)) None person)
     = Some \<lparr> left = 125, top_px = 50, width = 125 / 2, height = 125 / 2 \<rparr>
   \<and> offsetX 800 450 640 480 = 0 \<and> offsetY 800 450 640 480 = - 75"
  using cover_fit_formula [of Live "Some (webcam640 800 450)" None "webcam640 800 450" 640 480
      "\<lparr> clientWidth = 800, clientHeight = 450 \<rparr>" person]
  by (simp add: webcam640_def videoElement_def js_or_def truthy_def spec_raw_box_def spec_scale_def
      person_def offsetX_def offsetY_def scale_def)




text \<open>
  C8 as stated fails for a container that is present but has no size yet: the guards test the
  source dimensions and the presence of the container, not the container's dimensions. In a
  0 by 0 container the detection is rendered, as an empty box at (10, 10) with negative caps.
\<close>

theorem zero_container_counterexample:
  "map_option snd (renderBox Live (Some (webcam640 0 0)) None person)
   = Some \<lparr> left = 10, top_px = 10, width = 0, height = 0, maxWidth = - 20, maxHeight = - 20 \<rparr>"
  by (simp add: renderBox_def webcam640_def videoElement_def js_or_def truthy_def person_def
      rawStyle_def clampedStyle_def scale_def offsetX_def offsetY_def MARGIN_def Let_def)

text \<open>
  C8, amended. When the active element is missing, or the source's width or height is zero or
  missing, or the element has no container, the overlay returns nothing for the detection (and
  for every other detection of that render); whenever it does return a box, the two divisors,
  the source's width and height, are nonzero, so nothing is divided by zero. The overlay is a
  function of the current elements alone, so the next render starts afresh. A container of size
  zero is not a reason to skip.
\<close>

theorem unmappable_guards:
  "((if m = Live then webcamVideo else media) = None \<longrightarrow> renderBox m webcamVideo media pred = None)
   \<and> ((if m = Live then webcamVideo else media) = Some el \<and>
        (\<not> truthy (videoWidth el) \<and> \<not> truthy (naturalWidth el)
         \<or> \<not> truthy (videoHeight el) \<and> \<not> truthy (naturalHeight el)
         \<or> parentElement el = None)
      \<longrightarrow> renderBox m webcamVideo media pred = None)
   \<and> (renderBox m webcamVideo media pred = Some (raw, c) \<longrightarrow>
        (\<exists>el p vW vH. (if m = Live then webcamVideo else media) = Some el
            \<and> parentElement el = Some p
            \<and> js_or (videoWidth el) (naturalWidth el) = Some vW \<and> vW \<noteq> 0
            \<and> js_or (videoHeight el) (naturalHeight el) = Some vH \<and> vH \<noteq> 0
            \<and> raw = rawStyle (clientWidth p) (clientHeight p) vW vH (bbox pred)))
   \<and> (renderBox m webcamVideo media pred = None \<longrightarrow>
        overlay m webcamVideo media ps = map (\<lambda>p. None) ps)"
proof (intro conjI impI)
  assume "(if m = Live then webcamVideo else media) = None"
  then show "renderBox m webcamVideo media pred = None"
    by (simp add: renderBox_def)
next
  assume "(if m = Live then webcamVideo else media) = Some el \<and>
        (\<not> truthy (videoWidth el) \<and> \<not> truthy (naturalWidth el)
         \<or> \<not> truthy (videoHeight el) \<and> \<not> truthy (naturalHeight el)
         \<or> parentElement el = None)"
  then show "renderBox m webcamVideo media pred = None"
    by (auto simp add: renderBox_def js_or_def Let_def)
next
  assume "renderBox m webcamVideo media pred = Some (raw, c)"
  then show "\<exists>el p vW vH. (if m = Live then webcamVideo else media) = Some el
            \<and> parentElement el = Some p
            \<and> js_or (videoWidth el) (naturalWidth el) = Some vW \<and> vW \<noteq> 0
            \<and> js_or (videoHeight el) (naturalHeight el) = Some vH \<and> vH \<noteq> 0
            \<and> raw = rawStyle (clientWidth p) (clientHeight p) vW vH (bbox pred)"
    by (elim renderBox_SomeD) blast
next
  assume "renderBox m webcamVideo media pred = None"
  then have "\<And>q. renderBox m webcamVideo media q = None"
    by (auto simp add: renderBox_def Let_def split: option.splits if_splits)
  then show "overlay m webcamVideo media ps = map (\<lambda>p. None) ps"
    by (simp add: overlay_def)
qed

text \<open>
  A video whose metadata is not loaded yet (width 0) is skipped, for both detections of the
  render; the loaded video is drawn.
\<close>

theorem unmappable_guards_witness:
  "overlay Live (Some (videoElement 0 0 (Some \<lparr> clientWidth = 800, clientHeight = 450 \<rparr>))) None
     [person, wide] = [None, None]
   \<and> renderBox Live (Some (webcam640 800 450)) None person \<noteq> None
   \<and> renderBox Upload (Some (webcam640 800 450)) None person = None"
  using unmappable_guards [of Live
      "Some (videoElement 0 0 (Some \<lparr> clientWidth = 800, clientHeight = 450 \<rparr>))" None person
      "videoElement 0 0 (Some \<lparr> clientWidth = 800, clientHeight = 450 \<rparr>)" _ _ "[person, wide]"]
    unmappable_guards [of Upload "Some (webcam640 800 450)" None person]
  by (simp add: renderBox_def webcam640_def videoElement_def js_or_def truthy_def Let_def)

section \<open>Properties of the exemplar store\<close>

lemma learner_inv_init: "learner_inv learner_init"
  by (simp add: learner_inv_def learner_init_def)

lemma learner_inv_step: "learner_inv st \<Longrightarrow> learner_inv (learner_step pc ev st)"
  by (cases ev)
    (auto simp add: learner_inv_def addExample_def predict_def clearAll_def addClass_def
      split: option.splits sum.splits if_splits)

lemma learner_inv_run: "learner_inv st \<Longrightarrow> learner_inv (learner_run pc evs st)"
  by (induction evs arbitrary: st) (simp_all add: learner_inv_step)

lemma predict_store_empty: "store_empty st \<Longrightarrow> predict pc ready infer st = Inr st"
  by (auto simp add: store_empty_def predict_def getNumClasses_def split: option.splits)

lemma clearAll_store_empty: "store_empty (clearAll st)"
  by (simp add: store_empty_def clearAll_def clearAllClasses_def split: option.splits)

lemma clearAll_counts: "learner_inv st \<Longrightarrow> c \<in> set (classes (clearAll st)) \<Longrightarrow> count c = 0"
  by (auto simp add: learner_inv_def clearAll_def split: option.splits)

lemma clearAll_result: "learner_inv st \<Longrightarrow> result (clearAll st) = None"
  by (auto simp add: learner_inv_def clearAll_def split: option.splits)

lemma exemplars_empty: "store_empty st \<Longrightarrow> classifier st = Some k \<Longrightarrow> exemplars k i = []"
  by (simp add: store_empty_def exemplars_def)

text \<open>
  C6. A call of \<^verbatim>\<open>predict\<close> on a store without exemplars does not throw and produces no
  prediction, whatever the frame and whatever the external classifier would do: the guard stops
  it before anything is computed. In every state the component can reach, \<^verbatim>\<open>clearAll\<close> leaves
  every class without exemplars, every count at zero and the result empty (\<^verbatim>\<open>null\<close>), and a
  \<^verbatim>\<open>predict\<close> after it leaves all of that as it is.
\<close>

theorem predict_empty_store:
  "(store_empty st \<longrightarrow> predict predictClass ready infer st = Inr st)
   \<and> (let st' = clearAll (learner_run predictClass evs learner_init) in
        store_empty st'
        \<and> (\<forall>k classId. classifier st' = Some k \<longrightarrow> exemplars k classId = [])
        \<and> (\<forall>c \<in> set (classes st'). count c = 0)
        \<and> result st' = None
        \<and> predict predictClass ready infer st' = Inr st')"
proof -
  let ?st = "learner_run predictClass evs learner_init"
  have inv: "learner_inv ?st"
    by (rule learner_inv_run) (rule learner_inv_init)
  have e: "store_empty (clearAll ?st)"
    by (rule clearAll_store_empty)
  show ?thesis
    unfolding Let_def
    using e clearAll_counts [OF inv] clearAll_result [OF inv]
    by (auto simp add: predict_store_empty exemplars_empty)
qed

text \<open>
  After two examples and a prediction the result is set and two counts are 1; \<^verbatim>\<open>clearAll\<close>
  resets them, and the next \<^verbatim>\<open>predict\<close> changes nothing.
\<close>

theorem predict_empty_store_witness:
  "result (learner_run always0 training learner_init)
     = Some \<lparr> label = 0, classIndex = 0, confidences = [(0, 1)] \<rparr>
   \<and> map count (classes (learner_run always0 training learner_init)) = [1, 1, 0]
   \<and> map count (classes (clearAll (learner_run always0 training learner_init))) = [0, 0, 0]
   \<and> classifier (clearAll (learner_run always0 training learner_init)) = Some []
   \<and> result (clearAll (learner_run always0 training learner_init)) = None
   \<and> predict always0 True (Inr [1, 0]) (clearAll (learner_run always0 training learner_init))
       = Inr (clearAll (learner_run always0 training learner_init))"
  using predict_empty_store [of "clearAll (learner_run always0 training learner_init)" always0 True
      "Inr [1, 0]" training]
  by (simp add: training_def learner_init_def addExample_def knn_addExample_def predict_def
      getNumClasses_def always0_def clearAll_def clearAllClasses_def store_empty_def Let_def)

section \<open>Properties of the detection loop\<close>

lemmas sched_defs = init_def effect_def rerender_def cancelAnimationFrame_def
  requestAnimationFrame_def detect_def videoEl_def mediaType_def countFrame_def callModel_def
  rearm_def resume_def camera_def Let_def

subsection \<open>The frame cap\<close>

lemma requestAnimationFrame_clock [simp]:
  "calls (requestAnimationFrame c st) = calls st"
  "lastFrameTime (requestAnimationFrame c st) = lastFrameTime st"
  by (simp_all add: requestAnimationFrame_def)

lemma cancelAnimationFrame_clock [simp]:
  "calls (cancelAnimationFrame st) = calls st"
  "lastFrameTime (cancelAnimationFrame st) = lastFrameTime st"
  by (simp_all add: cancelAnimationFrame_def split: option.splits)

lemma rearm_clock [simp]:
  "calls (rearm c st) = calls st"
  "lastFrameTime (rearm c st) = lastFrameTime st"
  by (simp_all add: rearm_def)

lemma effect_clock [simp]:
  "calls (effect st) = calls st"
  "lastFrameTime (effect st) = lastFrameTime st"
  by (simp_all add: effect_def Let_def)

lemma rerender_clock [simp]:
  "calls (rerender c st) = calls st"
  "lastFrameTime (rerender c st) = lastFrameTime st"
  by (simp_all add: rerender_def)

lemma resume_clock [simp]:
  "calls (resume k r st) = calls st"
  "lastFrameTime (resume k r st) = lastFrameTime st"
  by (simp_all add: resume_def Let_def split: option.splits sum.splits)

lemma countFrame_clock [simp]:
  "calls (countFrame now st) = calls st"
  "lastFrameTime (countFrame now st) = lastFrameTime st"
  by (simp_all add: countFrame_def Let_def)

lemma cap_inv_cong:
  "calls st' = calls st \<Longrightarrow> lastFrameTime st' = lastFrameTime st \<Longrightarrow> cap_inv st \<Longrightarrow> cap_inv st'"
  by (simp add: cap_inv_def)

lemma cap_inv_detect: "cap_inv st \<Longrightarrow> cap_inv (detect c now e st)"
  by (fastforce simp add: cap_inv_def detect_def callModel_def Let_def split: option.splits)

lemma cap_inv_step: "cap_inv st \<Longrightarrow> cap_inv (step ev st)"
proof (cases ev)
  case (Frame h now e)
  assume "cap_inv st"
  then have "cap_inv (st\<lparr> frames := filter (\<lambda>p. fst p \<noteq> h) (frames st) \<rparr>)"
    by (simp add: cap_inv_def)
  then show ?thesis using Frame \<open>cap_inv st\<close>
    by (simp add: cap_inv_detect split: option.splits)
next
  case (Timer now e)
  assume a: "cap_inv st"
  show ?thesis
  proof (cases "timers st")
    case Nil
    with Timer a show ?thesis by simp
  next
    case (Cons c cs)
    from a have "cap_inv (st\<lparr> timers := cs \<rparr>)" by (simp add: cap_inv_def)
    with Timer Cons show ?thesis by (simp add: cap_inv_detect)
  qed
qed (auto elim!: cap_inv_cong [rotated 2])

lemma cap_inv_run: "cap_inv st \<Longrightarrow> cap_inv (run evs st)"
  by (induction evs arbitrary: st) (simp_all add: cap_inv_step)

lemma cap_inv_init: "cap_inv init"
  by (simp add: cap_inv_def init_def)

lemma detect_throttled:
  "\<not> isPaused c \<Longrightarrow> model c \<Longrightarrow> now - lastFrameTime st < 41
     \<Longrightarrow> detect c now e st = requestAnimationFrame c st"
  by (simp add: detect_def)

text \<open>
  C2 as stated fails: the guard of line 52 compares with 41, not with 1000/24. After a call at
  time 5000 that has resolved, the frame at 5041.2 calls the model again, 41.2 ms later, which
  is less than 1000/24 (41.66...).
\<close>

theorem cap_counterexample:
  "calls (run close_calls init) = [50412 / 10, 5000]
   \<and> \<not> spaced (1000 / 24) (calls (run close_calls init))"
  by (simp add: sched_defs first_call_def close_calls_def)

text \<open>
  C2, amended. Whatever happens to the component, any two calls of the model are at least 41 ms
  apart (41 is the constant the code uses for the cap of 24 frames per second): whenever
  \<^verbatim>\<open>detect\<close> gets past its first guard and finds that \<open>now - lastFrameTime\<close> is below 41, it
  calls nothing, suspends nothing and only queues itself for the next frame.
\<close>

theorem frame_cap:
  "spaced 41 (calls (run evs init))
   \<and> (\<not> isPaused c \<and> model c \<and> now - lastFrameTime st < 41
        \<longrightarrow> detect c now e st = requestAnimationFrame c st
            \<and> calls (detect c now e st) = calls st
            \<and> awaiting (detect c now e st) = awaiting st
            \<and> frames (detect c now e st) = frames st @ [(nextHandle st, c)])"
proof -
  have "cap_inv (run evs init)"
    by (rule cap_inv_run) (rule cap_inv_init)
  then show ?thesis
    by (auto simp add: cap_inv_def detect_throttled requestAnimationFrame_def)
qed

text \<open>
  Two calls at 5000 and 5050; a frame at 5020, while the first call is in flight, is throttled.
\<close>

theorem frame_cap_witness:
  "calls (run two_calls init) = [5050, 5000] \<and> spaced 41 [5050, 5000]
   \<and> lastFrameTime (run first_call init) = 5000
   \<and> calls (detect (cur (run first_call init)) 5020 camera (run first_call init)) = [5000]
   \<and> map fst (frames (detect (cur (run first_call init)) 5020 camera (run first_call init))) = [3]"
  using frame_cap [of two_calls "cur (run first_call init)" 5020 "run first_call init" camera]
  by (simp add: sched_defs first_call_def two_calls_def)

subsection \<open>Invariants of the queues\<close>

lemma loop_inv_requestAnimationFrame: "loop_inv st \<Longrightarrow> loop_inv (requestAnimationFrame c st)"
  by (auto simp add: loop_inv_def requestAnimationFrame_def)

lemma loop_inv_cancelAnimationFrame: "loop_inv st \<Longrightarrow> loop_inv (cancelAnimationFrame st)"
  by (auto simp add: loop_inv_def cancelAnimationFrame_def split: option.splits)

lemma loop_inv_rearm: "loop_inv st \<Longrightarrow> loop_inv (rearm c st)"
  by (simp add: rearm_def loop_inv_requestAnimationFrame)

lemma loop_inv_effect: "loop_inv st \<Longrightarrow> loop_inv (effect st)"
  by (auto simp add: effect_def Let_def loop_inv_requestAnimationFrame) (simp_all add: loop_inv_def)

lemma loop_inv_upd:
  "loop_inv st \<Longrightarrow> loop_inv (st\<lparr> cur := c \<rparr>)"
  "loop_inv st \<Longrightarrow> loop_inv (st\<lparr> predictions := ps \<rparr>)"
  "loop_inv st \<Longrightarrow> loop_inv (st\<lparr> timers := ts \<rparr>)"
  "loop_inv st \<Longrightarrow> loop_inv (st\<lparr> lastFrameTime := t \<rparr>)"
  "loop_inv st \<Longrightarrow> loop_inv (st\<lparr> console := l \<rparr>)"
  "loop_inv st \<Longrightarrow> loop_inv (st\<lparr> frames := filter P (frames st) \<rparr>)"
  "loop_inv st \<Longrightarrow> loop_inv (st\<lparr> awaiting := filter Q (awaiting st) \<rparr>)"
  by (simp_all add: loop_inv_def)

lemma loop_inv_rerender: "loop_inv st \<Longrightarrow> loop_inv (rerender c st)"
  by (simp add: rerender_def loop_inv_effect loop_inv_cancelAnimationFrame loop_inv_upd)

lemma loop_inv_countFrame: "loop_inv st \<Longrightarrow> loop_inv (countFrame now st)"
  by (simp add: countFrame_def Let_def loop_inv_def)

lemma loop_inv_callModel:
  "loop_inv st \<Longrightarrow> \<not> isPaused c \<Longrightarrow> model c \<Longrightarrow> loop_inv (callModel c now st)"
  by (auto simp add: callModel_def loop_inv_def)

lemma loop_inv_detect: "loop_inv st \<Longrightarrow> loop_inv (detect c now e st)"
  by (simp add: detect_def Let_def loop_inv_requestAnimationFrame loop_inv_rearm loop_inv_upd
      loop_inv_callModel loop_inv_countFrame split: option.splits)

lemma loop_inv_resume: "loop_inv st \<Longrightarrow> loop_inv (resume k r st)"
  by (simp add: resume_def Let_def loop_inv_rearm loop_inv_upd split: option.splits sum.splits)

lemma loop_inv_step: "loop_inv st \<Longrightarrow> loop_inv (step ev st)"
  by (cases ev)
    (simp_all add: loop_inv_detect loop_inv_resume loop_inv_rerender loop_inv_upd
      split: option.splits list.splits)

lemma loop_inv_run: "loop_inv st \<Longrightarrow> loop_inv (run evs st)"
  by (induction evs arbitrary: st) (simp_all add: loop_inv_step)

lemma loop_inv_init: "loop_inv init"
  by (simp add: loop_inv_def init_def effect_def requestAnimationFrame_def mediaType_def Let_def)

lemma map_of_fresh:
  "\<forall>p \<in> set xs. fst p < (h::nat) \<Longrightarrow> map_of (xs @ [(h, c)]) h = Some c"
  by (induction xs) auto

lemma resume_failure:
  assumes "map_of (awaiting st) k = Some c"
  shows "resume k (Inl err) st =
           (resume k (Inr results) st)\<lparr> predictions := predictions st, console := console st @ [err] \<rparr>"
  using assms by (simp add: resume_def rearm_def requestAnimationFrame_def Let_def)

lemma resume_failure_fields:
  assumes "map_of (awaiting st) k = Some c"
  shows "console (resume k (Inl err) st) = console st @ [err]"
    and "predictions (resume k (Inl err) st) = predictions st"
    and "awaiting (resume k (Inl err) st) = filter (\<lambda>p. fst p \<noteq> k) (awaiting st)"
    and "lastFrameTime (resume k (Inl err) st) = lastFrameTime st"
    and "calls (resume k (Inl err) st) = calls st"
  using assms by (simp_all add: resume_def rearm_def requestAnimationFrame_def Let_def)

lemma resume_failure_rearmed:
  assumes "map_of (awaiting st) k = Some c"
    and "mode c = Live \<or> mode c = Upload \<and> mediaType c = Some Video"
  shows "frames (resume k (Inl err) st) = frames st @ [(nextHandle st, c)]"
  using assms by (auto simp add: resume_def rearm_def requestAnimationFrame_def Let_def)

lemma detect_calls:
  assumes "\<not> isPaused c" "model c" "41 \<le> now - lastFrameTime st" "videoEl c e \<noteq> None"
  shows "calls (detect c now e st) = now # calls st"
  using assms by (auto simp add: detect_def callModel_def Let_def countFrame_def)

lemma resume_counter:
  "frameCount (resume k r st) = frameCount st"
  "fps (resume k r st) = fps st"
  "lastFpsTime (resume k r st) = lastFpsTime st"
  by (simp_all add: resume_def rearm_def requestAnimationFrame_def Let_def
      split: option.splits sum.splits)

subsection \<open>A failed inference\<close>

text \<open>
  C7 as stated fails in one point: a failed cycle is not treated as a cycle without
  detections. The \<^verbatim>\<open>catch\<close> branch only prints the error, so the detections of the last
  successful cycle stay in \<^verbatim>\<open>predictions\<close>, whereas a cycle in which the model finds nothing
  empties it.
\<close>

theorem failed_cycle_keeps_detections:
  "predictions (run (two_calls @ [Settled 1 (Inl ''boom'')]) init) = [person]
   \<and> predictions (run (two_calls @ [Settled 1 (Inr [])]) init) = []"
  by (simp add: sched_defs first_call_def two_calls_def)

text \<open>
  C7, amended. When the call a suspended \<^verbatim>\<open>detect\<close> waits for is rejected, the error is
  caught and printed by \<^verbatim>\<open>console.error\<close>, \<^verbatim>\<open>predictions\<close> is left as it was (neither
  updated nor emptied), the call is no longer outstanding, and the loop goes on exactly as
  after a fulfilled call: the state differs from the one a success would have left only in
  \<^verbatim>\<open>predictions\<close> and the console. For a live source or an uploaded video the closure is queued
  again under a fresh handle, and when that frame runs past the cap with a usable source it
  calls the model again. (An uploaded image is detected once and never re-armed, whether the
  call fails or not.)
\<close>

theorem inference_failure_continues:
  assumes "map_of (awaiting (run evs init)) k = Some c"
  shows "console (resume k (Inl err) (run evs init)) = console (run evs init) @ [err]
       \<and> predictions (resume k (Inl err) (run evs init)) = predictions (run evs init)
       \<and> k \<notin> fst ` set (awaiting (resume k (Inl err) (run evs init)))
       \<and> resume k (Inl err) (run evs init) =
           (resume k (Inr results) (run evs init))
             \<lparr> predictions := predictions (run evs init),
               console := console (run evs init) @ [err] \<rparr>
       \<and> (mode c = Live \<or> mode c = Upload \<and> mediaType c = Some Video \<longrightarrow>
            map_of (frames (resume k (Inl err) (run evs init))) (nextHandle (run evs init)) = Some c
            \<and> (41 \<le> now - lastFrameTime (run evs init) \<and> videoEl c e \<noteq> None \<longrightarrow>
                 calls (step (Frame (nextHandle (run evs init)) now e)
                          (resume k (Inl err) (run evs init)))
                   = now # calls (run evs init)))"
proof -
  let ?st = "run evs init"
  let ?st' = "resume k (Inl err) ?st"
  have inv: "loop_inv ?st"
    by (rule loop_inv_run) (rule loop_inv_init)
  from assms have "(k, c) \<in> set (awaiting ?st)"
    by (rule map_of_SomeD)
  with inv have c: "\<not> isPaused c" "model c"
    by (auto simp add: loop_inv_def)
  have 1: "console ?st' = console ?st @ [err]" "predictions ?st' = predictions ?st"
    using assms by (rule resume_failure_fields)+
  have 2: "k \<notin> fst ` set (awaiting ?st')"
    by (auto simp add: resume_failure_fields(3) [OF assms])
  have 3: "?st' = (resume k (Inr results) ?st)
             \<lparr> predictions := predictions ?st, console := console ?st @ [err] \<rparr>"
    using assms by (rule resume_failure)
  have 4: "map_of (frames ?st') (nextHandle ?st) = Some c
            \<and> (41 \<le> now - lastFrameTime ?st \<and> videoEl c e \<noteq> None \<longrightarrow>
                 calls (step (Frame (nextHandle ?st) now e) ?st') = now # calls ?st)"
    if cont: "mode c = Live \<or> mode c = Upload \<and> mediaType c = Some Video"
  proof -
    have f: "frames ?st' = frames ?st @ [(nextHandle ?st, c)]"
      using assms cont by (rule resume_failure_rearmed)
    from inv have "\<forall>p \<in> set (frames ?st). fst p < nextHandle ?st"
      by (simp add: loop_inv_def)
    then have m: "map_of (frames ?st') (nextHandle ?st) = Some c"
      unfolding f by (rule map_of_fresh)
    have "calls (step (Frame (nextHandle ?st) now e) ?st') = now # calls ?st"
      if "41 \<le> now - lastFrameTime ?st" "videoEl c e \<noteq> None"
      using m c that
      by (simp add: detect_calls resume_failure_fields [OF assms])
    with m show ?thesis by blast
  qed
  from 1 2 3 4 show ?thesis by blast
qed

text \<open>
  A detection, then a failure: the error is printed, the call is no longer outstanding,
  handle 4 is queued, and the frame at 5100 makes the third call.
\<close>

theorem inference_failure_continues_witness:
  "map_of (awaiting (run two_calls init)) 1 = Some (cur (run two_calls init))
   \<and> awaiting (run (two_calls @ [Settled 1 (Inl ''boom'')]) init) = []
   \<and> console (run (two_calls @ [Settled 1 (Inl ''boom'')]) init) = [''boom'']
   \<and> map fst (frames (run (two_calls @ [Settled 1 (Inl ''boom'')]) init)) = [4]
   \<and> calls (run failure_after_success init) = [5100, 5050, 5000]"
  using inference_failure_continues [of two_calls 1 "cur (run two_calls init)" "''boom''" "[]"
      5100 camera]
  by (simp add: sched_defs first_call_def two_calls_def
      failure_after_success_def)

subsection \<open>Calls in flight across a re-render\<close>

text \<open>
  As long as the component is not re-rendered with new dependencies, the loop is a single
  strand: one queued callback, or one pending timer, or one suspended invocation. So a step
  that calls the model is resumed before the next one starts, and at most one call is
  outstanding.
\<close>

lemma strands_requestAnimationFrame: "strands (requestAnimationFrame c st) = Suc (strands st)"
  by (simp add: strands_def requestAnimationFrame_def)

lemma strands_rearm: "strands (rearm c st) \<le> Suc (strands st)"
  by (simp add: rearm_def strands_requestAnimationFrame)

lemma strands_detect: "strands (detect c now e st) \<le> Suc (strands st)"
proof -
  have "strands (rearm c (st\<lparr> lastFrameTime := now \<rparr>)) \<le> Suc (strands st)"
    using strands_rearm [of c "st\<lparr> lastFrameTime := now \<rparr>"] by (simp add: strands_def)
  then show ?thesis
    by (auto simp add: detect_def Let_def strands_requestAnimationFrame split: option.splits)
      (simp add: strands_def callModel_def countFrame_def Let_def)
qed

lemma filter_single:
  "length xs \<le> 1 \<Longrightarrow> map_of xs k = Some c \<Longrightarrow> filter (\<lambda>p. fst p \<noteq> k) xs = []"
  by (cases xs) (auto split: if_splits)

lemma one_strand:
  "length a + length b + length c \<le> 1 \<Longrightarrow> a \<noteq> [] \<Longrightarrow> length a \<le> 1 \<and> b = [] \<and> c = []"
  by (cases a; cases b; cases c) simp_all

lemma strands_step:
  assumes "strands st \<le> 1" and "loop_event ev"
  shows "strands (step ev st) \<le> 1"
proof (cases ev)
  case (Frame h now e)
  show ?thesis
  proof (cases "map_of (frames st) h")
    case None
    with Frame assms show ?thesis by simp
  next
    case (Some c)
    then have "frames st \<noteq> []" by auto
    with assms(1) one_strand [of "frames st" "timers st" "awaiting st"]
    have l: "length (frames st) \<le> 1" "timers st = []" "awaiting st = []"
      by (simp_all add: strands_def)
    from l(1) Some have "filter (\<lambda>p. fst p \<noteq> h) (frames st) = []"
      by (rule filter_single)
    with l have "strands (st\<lparr> frames := filter (\<lambda>p. fst p \<noteq> h) (frames st) \<rparr>) = 0"
      by (simp add: strands_def)
    with strands_detect [of c now e "st\<lparr> frames := filter (\<lambda>p. fst p \<noteq> h) (frames st) \<rparr>"]
    show ?thesis using Frame Some by simp
  qed
next
  case (Timer now e)
  show ?thesis
  proof (cases "timers st")
    case Nil
    with Timer assms show ?thesis by simp
  next
    case (Cons c cs)
    with assms(1) have "strands (st\<lparr> timers := cs \<rparr>) = 0"
      by (simp add: strands_def)
    with strands_detect [of c now e "st\<lparr> timers := cs \<rparr>"]
    show ?thesis using Timer Cons by simp
  qed
next
  case (Settled k r)
  show ?thesis
  proof (cases "map_of (awaiting st) k")
    case None
    with Settled assms show ?thesis by (simp add: resume_def)
  next
    case (Some c)
    then have "awaiting st \<noteq> []" by auto
    with assms(1) one_strand [of "awaiting st" "timers st" "frames st"]
    have l: "length (awaiting st) \<le> 1" "timers st = []" "frames st = []"
      by (simp_all add: strands_def add.commute add.left_commute)
    from l(1) Some have f: "filter (\<lambda>p. fst p \<noteq> k) (awaiting st) = []"
      by (rule filter_single)
    have "strands (rearm c s) \<le> 1" if "strands s = 0" for s
      using strands_rearm [of c s] that by simp
    then show ?thesis using Settled Some f l
      by (simp add: resume_def Let_def strands_def split: sum.splits)
  qed
qed (use assms in simp_all)

lemma strands_run:
  "strands st \<le> 1 \<Longrightarrow> \<forall>ev \<in> set evs. loop_event ev \<Longrightarrow> strands (run evs st) \<le> 1"
proof (induction evs arbitrary: st)
  case Nil
  then show ?case by simp
next
  case (Cons ev evs)
  from Cons.prems have "strands st \<le> 1" and "loop_event ev" by simp_all
  then have "strands (step ev st) \<le> 1" by (rule strands_step)
  with Cons show ?case by simp
qed

lemma single_chain_no_overlap:
  assumes "\<forall>ev \<in> set evs. loop_event ev"
  shows "length (awaiting (run evs (step ModelLoaded init))) \<le> 1"
proof -
  have "strands (step ModelLoaded init) \<le> 1"
    by (simp add: strands_def sched_defs)
  then have "strands (run evs (step ModelLoaded init)) \<le> 1"
    using assms by (rule strands_run)
  then show ?thesis by (simp add: strands_def)
qed

text \<open>
  A re-render does not touch the suspended invocations, and a resumed invocation stores its
  result without looking at the current render.
\<close>

lemma rerender_awaiting [simp]: "awaiting (rerender c st) = awaiting st"
  by (simp add: rerender_def effect_def cancelAnimationFrame_def requestAnimationFrame_def Let_def
      split: option.splits)

lemma awaiting_user_event: "\<not> loop_event ev \<Longrightarrow> awaiting (step ev st) = awaiting st"
  by (cases ev) simp_all

lemma resume_applies_result:
  "map_of (awaiting st) k = Some c \<Longrightarrow> predictions (resume k (Inr results) st) = results"
  by (simp add: resume_def rearm_def requestAnimationFrame_def Let_def)

lemma in_flight_result_survives:
  assumes "map_of (awaiting st) k = Some c" and "\<not> loop_event ev"
  shows "predictions (resume k (Inr results) (step ev st)) = results"
  using assms by (simp add: resume_applies_result awaiting_user_event)

text \<open>
  C1 (no two calls outstanding) does not hold in the code. The cleanup of the trigger effect
  cancels the queued frame callback only; an invocation suspended at the \<^verbatim>\<open>await\<close> is not
  affected, and the effect starts a second strand beside it. Here the confidence slider is
  moved while call 0 (made at time 5000) is in flight: the effect queues the new \<^verbatim>\<open>detect\<close>
  under handle 3, and when that frame runs at time 5050 it makes call 1 while call 0 is still
  unresolved.
\<close>

theorem overlap_trace:
  "map fst (awaiting (run first_call init)) = [0]
   \<and> map fst (awaiting (run settings_in_flight init)) = [0, 1]
   \<and> calls (run settings_in_flight init) = [5050, 5000]"
  by (simp add: sched_defs first_call_def settings_in_flight_def slider_def)

lemma rerender_predictions [simp]: "predictions (rerender c st) = predictions st"
  by (simp add: rerender_def effect_def cancelAnimationFrame_def requestAnimationFrame_def Let_def
      split: option.splits)

text \<open>
  Every handler that changes the source empties \<^verbatim>\<open>predictions\<close>, so that the new source
  starts without detections, and it leaves the suspended invocations alone.
\<close>

lemma source_switch_clears: "source_switch ev \<Longrightarrow> predictions (step ev st) = []"
  by (cases ev) simp_all

lemma source_switch_awaiting: "source_switch ev \<Longrightarrow> awaiting (step ev st) = awaiting st"
  by (cases ev) simp_all

text \<open>
  C3 (a result that arrives after a source switch is discarded, never applied to the new
  source) does not hold in the code. The mode toggle empties \<^verbatim>\<open>predictions\<close>, cancels the
  queued callback and switches to upload while call 0 is in flight; when call 0 resolves, the
  suspended invocation stores its result all the same, and the detection computed on the
  webcam frame is in the state of the upload source.
\<close>

theorem stale_result_trace:
  "predictions (run (first_call @ [ToggleMode]) init) = []
   \<and> mode (cur (run (first_call @ [ToggleMode]) init)) = Upload
   \<and> predictions (run switch_in_flight init) = [person]
   \<and> mode (cur (run switch_in_flight init)) = Upload"
  by (simp add: sched_defs first_call_def switch_in_flight_def)

text \<open>
  C10 (a result that arrives after a pause is applied; pausing keeps new steps from starting).
  The first half holds: the result of call 0 is stored although the detector was paused while
  the call was in flight. The second half does not: the resumed invocation belongs to the
  closure of the render before the pause, in which \<^verbatim>\<open>isPaused\<close> is false; it queues itself
  again, and at time 5050 it makes call 1 although the detector is paused. (A pause between two
  calls does stop the loop: the cleanup cancels the queued callback and nothing is left.)
\<close>

theorem pause_in_flight_trace:
  "predictions (run pause_in_flight init) = [person]
   \<and> isPaused (cur (run pause_in_flight init))
   \<and> calls (run pause_in_flight init) = [5050, 5000]
   \<and> map fst (awaiting (run pause_in_flight init)) = [1]
   \<and> strands (run (first_call @ [Settled 0 (Inr [person]), TogglePause]) init) = 0"
  by (simp add: sched_defs first_call_def pause_in_flight_def strands_def)

subsection \<open>The frame counter\<close>

text \<open>
  C9 (the counter counts completed inferences only) does not hold in the code. The counter is
  incremented, and the window tested, before the model is called; resuming an invocation never
  touches it. At the first call the window is already over, so the rate 1 is shown while that
  call is still in flight. Then calls 0 and 1 are both rejected and call 2 is in flight when
  the next window closes at time 6000: the rate shown is 2, and no inference has completed.
\<close>

theorem fps_counts_failures:
  "fps (run first_call init) = 1
   \<and> map fst (awaiting (run first_call init)) = [0]
   \<and> frameCount (run (first_call @ [Settled 0 (Inl ''boom''), Frame 3 5100 camera]) init) = 1
   \<and> fps (run failing_calls init) = 2
   \<and> console (run failing_calls init) = [''boom'', ''boom'']
   \<and> predictions (run failing_calls init) = []
   \<and> map fst (awaiting (run failing_calls init)) = [2]"
  by (simp add: sched_defs first_call_def failing_calls_def)

end
